theory Spec2Isabelle
  imports Complex_Main
begin

section \<open>Wall-clock times and the format \<open>%I:%M %p\<close>\<close>

text \<open>
  The program reads only the \<open>hour\<close> and \<open>minute\<close> fields of the datetimes it handles
  (\<open>get_current_ist_time()\<close>, the result of \<open>datetime.strptime\<close>), so a datetime is the
  record of these two fields. A value delivered by the clock or by a successful parse has
  \<open>hour < 24\<close> and \<open>minute < 60\<close>.
\<close>

record datetime =
  hour :: nat
  minute :: nat

definition valid_time :: "datetime \<Rightarrow> bool" where
  "valid_time t = (hour t < 24 \<and> minute t < 60)"

text \<open>
  \<open>t.strftime('%I:%M %p')\<close>: the hour on the 12-hour clock and the minute, each as two
  decimal digits, and the marker \<open>AM\<close> or \<open>PM\<close> (the C and English locales).
\<close>

definition digit_char :: "nat \<Rightarrow> char" where
  "digit_char d = ''0123456789'' ! (d mod 10)"

definition two_digits :: "nat \<Rightarrow> string" where
  "two_digits n = [digit_char (n div 10), digit_char n]"

definition hour12 :: "nat \<Rightarrow> nat" where
  "hour12 h = (if h mod 12 = 0 then 12 else h mod 12)"

definition strftime :: "datetime \<Rightarrow> string" where
  "strftime t =
     two_digits (hour12 (hour t)) @ '':'' @ two_digits (minute t) @ '' '' @
     (if hour t < 12 then ''AM'' else ''PM'')"

text \<open>
  \<open>datetime.strptime(s, '%I:%M %p')\<close>. The library turns the format into the regular
  expression \<open>(1[0-2]|0[1-9]|[1-9]):([0-5]\d|\d)\s+(am|pm)\<close>, matched ignoring case
  from the start of the text, and raises \<open>ValueError\<close> when it does not match or when
  text remains after the match. In each alternation the shorter alternative can only
  succeed where the longer one failed (what follows the hour is \<open>:\<close> and what follows
  the minute is white space, never a digit), so the match is written without
  backtracking. Texts are ASCII. \<open>None\<close> is the \<open>ValueError\<close>.
\<close>

definition digit_val :: "char \<Rightarrow> nat option" where
  "digit_val =
     map_of [(CHR ''0'', 0), (CHR ''1'', 1), (CHR ''2'', 2), (CHR ''3'', 3), (CHR ''4'', 4),
             (CHR ''5'', 5), (CHR ''6'', 6), (CHR ''7'', 7), (CHR ''8'', 8), (CHR ''9'', 9)]"

definition is_space :: "char \<Rightarrow> bool" where
  "is_space c =
     (c \<in> set [CHR '' '', CHR 0x09, CHR 0x0A, CHR 0x0B, CHR 0x0C, CHR 0x0D,
               CHR 0x1C, CHR 0x1D, CHR 0x1E, CHR 0x1F])"

definition match_I :: "string \<Rightarrow> (nat \<times> string) option" where
  "match_I s =
     (case s of
        [] \<Rightarrow> None
      | a # s1 \<Rightarrow>
          (case digit_val a of
             None \<Rightarrow> None
           | Some x \<Rightarrow>
               (case s1 of
                  [] \<Rightarrow> if 1 \<le> x then Some (x, s1) else None
                | b # s2 \<Rightarrow>
                    (case digit_val b of
                       None \<Rightarrow> if 1 \<le> x then Some (x, s1) else None
                     | Some y \<Rightarrow>
                         if x = 1 \<and> y \<le> 2 then Some (10 + y, s2)
                         else if x = 0 \<and> 1 \<le> y then Some (y, s2)
                         else if 1 \<le> x then Some (x, s1)
                         else None))))"

definition match_M :: "string \<Rightarrow> (nat \<times> string) option" where
  "match_M s =
     (case s of
        [] \<Rightarrow> None
      | a # s1 \<Rightarrow>
          (case digit_val a of
             None \<Rightarrow> None
           | Some x \<Rightarrow>
               (case s1 of
                  [] \<Rightarrow> Some (x, s1)
                | b # s2 \<Rightarrow>
                    (case digit_val b of
                       None \<Rightarrow> Some (x, s1)
                     | Some y \<Rightarrow> if x \<le> 5 then Some (10 * x + y, s2) else Some (x, s1)))))"

definition match_p :: "string \<Rightarrow> bool option" where
  "match_p s =
     (case s of
        [p, q] \<Rightarrow>
          if q = CHR ''m'' \<or> q = CHR ''M'' then
            (if p = CHR ''a'' \<or> p = CHR ''A'' then Some False
             else if p = CHR ''p'' \<or> p = CHR ''P'' then Some True
             else None)
          else None
      | _ \<Rightarrow> None)"

definition strptime :: "string \<Rightarrow> datetime option" where
  "strptime s =
     (case match_I s of
        None \<Rightarrow> None
      | Some (h, s1) \<Rightarrow>
          (case s1 of
             [] \<Rightarrow> None
           | c # s2 \<Rightarrow>
               if c \<noteq> CHR '':'' then None
               else
                 (case match_M s2 of
                    None \<Rightarrow> None
                  | Some (m, s3) \<Rightarrow>
                      (case s3 of
                         [] \<Rightarrow> None
                       | w # s4 \<Rightarrow>
                           if \<not> is_space w then None
                           else
                             (case match_p (dropWhile is_space s4) of
                                None \<Rightarrow> None
                              | Some pm \<Rightarrow>
                                  Some \<lparr>hour = (if pm then (if h = 12 then 12 else h + 12)
                                                 else (if h = 12 then 0 else h)),
                                        minute = m\<rparr>)))))"

section \<open>Elapsed hours\<close>

text \<open>
  Python's floats are modelled by the rationals they stand for. Both instants lie on the
  same date at a whole minute, so \<open>total_seconds()\<close> is a whole number of seconds, exact
  as a float; the quotient by 3600 and \<open>round(x, 2)\<close> are taken exactly
  (\<open>round\<close> rounds to the nearest hundredth, a tie to the even one).
\<close>

definition total_seconds :: "datetime \<Rightarrow> datetime \<Rightarrow> int" where
  "total_seconds later earlier =
     60 * ((int (hour later) * 60 + int (minute later)) -
           (int (hour earlier) * 60 + int (minute earlier)))"

text \<open>Lines 140 to 143 of \<open>log_leaving\<close>: the difference, a day added when it is negative.\<close>

definition time_diff :: "datetime \<Rightarrow> datetime \<Rightarrow> rat" where
  "time_diff arrival leaving =
     (let d = of_int (total_seconds leaving arrival) / 3600
      in if d < 0 then of_int (total_seconds leaving arrival + 86400) / 3600 else d)"

definition round_half_even :: "rat \<Rightarrow> int" where
  "round_half_even x =
     (let f = \<lfloor>x\<rfloor>; r = x - of_int f
      in if r < 1 / 2 then f else if 1 / 2 < r then f + 1
         else if even f then f else f + 1)"

definition py_round2 :: "rat \<Rightarrow> rat" where
  "py_round2 x = of_int (round_half_even (x * 100)) / 100"

section \<open>Photos\<close>

text \<open>
  A photo payload is an image file; of its content the model keeps what \<open>save_image\<close>
  sets: the file format and the pixel size. Two payloads that differ in either differ as
  byte strings, so an inequality in the model is an inequality of the bytes (an equality
  in the model says nothing about the pixels). The payload comes from the camera widget
  and is an image, so \<open>Image.open\<close> is taken to succeed.
\<close>

record image =
  img_format :: string
  img_size :: "nat \<times> nat"

definition resize :: "image \<Rightarrow> nat \<times> nat \<Rightarrow> image" where
  "resize im sz = im\<lparr>img_size := sz\<rparr>"

definition save :: "image \<Rightarrow> string \<Rightarrow> image" where
  "save im fmt = im\<lparr>img_format := fmt\<rparr>"

definition save_image :: "image \<Rightarrow> image" where
  "save_image img = save (resize img (250, 250)) ''PNG''"

section \<open>The attendance collection\<close>

text \<open>
  A calendar date is a day number; \<open>datetime.combine(date, datetime.min.time())\<close> is
  one-to-one on dates, so the stored \<open>Date\<close> is the date itself. The collection is the
  list of its documents in insertion order: \<open>find_one\<close> returns the first match,
  \<open>insert_one\<close> appends under a fresh \<open>_id\<close>, \<open>update_one\<close> changes the first match.
  The program creates no index on the collection.
\<close>

type_synonym date = int

record entry =
  oid :: nat
  Employee_ID :: string
  Name :: string
  Date :: date
  Arrival_Time :: "string option"
  Leaving_Time :: "string option"
  Hours_Present :: "rat option"
  Arrival_Photo :: "image option"
  Leaving_Photo :: "image option"

definition find_one :: "string \<Rightarrow> date \<Rightarrow> entry list \<Rightarrow> entry option" where
  "find_one emp_id d coll = find (\<lambda>e. Employee_ID e = emp_id \<and> Date e = d) coll"

definition fresh_oid :: "entry list \<Rightarrow> nat" where
  "fresh_oid coll = fold (\<lambda>e n. max n (Suc (oid e))) coll 0"

definition insert_one :: "entry \<Rightarrow> entry list \<Rightarrow> entry list" where
  "insert_one e coll = coll @ [e\<lparr>oid := fresh_oid coll\<rparr>]"

fun update_first :: "('a \<Rightarrow> bool) \<Rightarrow> ('a \<Rightarrow> 'a) \<Rightarrow> 'a list \<Rightarrow> 'a list" where
  "update_first P f [] = []"
| "update_first P f (x # xs) = (if P x then f x # xs else x # update_first P f xs)"

definition update_one :: "nat \<Rightarrow> (entry \<Rightarrow> entry) \<Rightarrow> entry list \<Rightarrow> entry list" where
  "update_one i f coll = update_first (\<lambda>e. oid e = i) f coll"

section \<open>Logging arrival and leaving\<close>

datatype exn = TypeError | ValueError

type_synonym response = "bool \<times> string"

definition log_arrival ::
  "string \<Rightarrow> string \<Rightarrow> date \<Rightarrow> image \<Rightarrow> datetime \<Rightarrow> entry list \<Rightarrow> response \<times> entry list" where
  "log_arrival emp_id name d photo now coll =
     (case find_one emp_id d coll of
        Some _ \<Rightarrow> ((False, ''Arrival already logged for today.''), coll)
      | None \<Rightarrow>
          ((True, ''Arrival logged successfully.''),
           insert_one
             \<lparr>oid = 0, Employee_ID = emp_id, Name = name, Date = d,
              Arrival_Time = Some (strftime now), Leaving_Time = None,
              Hours_Present = None, Arrival_Photo = Some (save_image photo),
              Leaving_Photo = None\<rparr>
             coll))"

text \<open>
  \<open>log_leaving\<close> returns a response or raises: \<open>strptime\<close> raises \<open>TypeError\<close> on a
  null arrival time and \<open>ValueError\<close> on a text it cannot parse, both before the
  update.
\<close>

definition log_leaving ::
  "string \<Rightarrow> date \<Rightarrow> image \<Rightarrow> datetime \<Rightarrow> entry list \<Rightarrow> (exn + response) \<times> entry list" where
  "log_leaving emp_id d photo now coll =
     (case find_one emp_id d coll of
        None \<Rightarrow> (Inr (False, ''Arrival not logged for today.''), coll)
      | Some e \<Rightarrow>
          if Leaving_Time e \<noteq> None
          then (Inr (False, ''Leaving time already logged for today.''), coll)
          else
            (case Arrival_Time e of
               None \<Rightarrow> (Inl TypeError, coll)
             | Some s \<Rightarrow>
                 (case strptime s of
                    None \<Rightarrow> (Inl ValueError, coll)
                  | Some arrival_time \<Rightarrow>
                      (Inr (True, ''Leaving time logged successfully.''),
                       update_one (oid e)
                         (\<lambda>r. r\<lparr>Leaving_Time := Some (strftime now),
                                Hours_Present := Some (py_round2 (time_diff arrival_time now)),
                                Leaving_Photo := Some (save_image photo)\<rparr>)
                         coll))))"


definition NoArrivalError :: response where
  "NoArrivalError = (False, ''Arrival not logged for today.'')"

definition AlreadyCompletedError :: response where
  "AlreadyCompletedError = (False, ''Leaving time already logged for today.'')"

section \<open>The administrative record edit\<close>

text \<open>
  Lines 320 to 339 of \<open>admin_page\<close>, the update button pressed: \<open>arr_time\<close> and
  \<open>leave_time\<close> are what the two text inputs returned (a text, or null). Any exception
  of the parse or of the difference is caught and leaves \<open>hours_present\<close> null.
\<close>

definition edit_hours :: "string option \<Rightarrow> string option \<Rightarrow> rat option" where
  "edit_hours arr_time leave_time =
     (case arr_time of
        None \<Rightarrow> None
      | Some a \<Rightarrow>
          (case strptime a of
             None \<Rightarrow> None
           | Some arr_dt \<Rightarrow>
               (case leave_time of
                  None \<Rightarrow> None
                | Some l \<Rightarrow>
                    (case strptime l of
                       None \<Rightarrow> None
                     | Some leave_dt \<Rightarrow>
                         Some (py_round2 (of_int (total_seconds leave_dt arr_dt) / 3600))))))"

definition admin_update ::
  "string \<Rightarrow> date \<Rightarrow> string option \<Rightarrow> string option \<Rightarrow> entry list \<Rightarrow> entry list" where
  "admin_update emp_to_update date_to_update arr_time leave_time coll =
     (case find_one emp_to_update date_to_update coll of
        None \<Rightarrow> coll
      | Some e \<Rightarrow>
          update_one (oid e)
            (\<lambda>r. r\<lparr>Arrival_Time := arr_time, Leaving_Time := leave_time,
                   Hours_Present := edit_hours arr_time leave_time\<rparr>)
            coll)"

section \<open>Sequences of operations\<close>

text \<open>
  The operations that write the attendance collection, each with the arguments and the
  clock reading of one request, and what the request gave back: the response of a
  logging function, the exception it raised, or nothing (the edit).
\<close>

datatype op =
    LogArrival string string date image datetime
  | LogLeaving string date image datetime
  | AdminUpdate string date "string option" "string option"

datatype outcome = Returned response | Raised exn | Edited

fun exec :: "op \<Rightarrow> entry list \<Rightarrow> outcome \<times> entry list" where
  "exec (LogArrival emp_id name d photo now) coll =
     (case log_arrival emp_id name d photo now coll of (r, coll') \<Rightarrow> (Returned r, coll'))"
| "exec (LogLeaving emp_id d photo now) coll =
     (case log_leaving emp_id d photo now coll of
        (Inl x, coll') \<Rightarrow> (Raised x, coll')
      | (Inr r, coll') \<Rightarrow> (Returned r, coll'))"
| "exec (AdminUpdate emp_id d arr_time leave_time) coll =
     (Edited, admin_update emp_id d arr_time leave_time coll)"

fun run :: "op list \<Rightarrow> entry list \<Rightarrow> outcome list \<times> entry list" where
  "run [] coll = ([], coll)"
| "run (x # xs) coll =
     (case exec x coll of
        (r, coll') \<Rightarrow> (case run xs coll' of (rs, coll'') \<Rightarrow> (r # rs, coll'')))"

text \<open>
  The key of a record, and an operation that is not an edit with a leaving text beside
  which the hours stay null (the leaving text is null, or both texts of the edit parse).
\<close>

definition key :: "entry \<Rightarrow> string \<times> date" where
  "key e = (Employee_ID e, Date e)"


section \<open>The location restriction setting\<close>

text \<open>
  The settings collection holds documents of a name and a value. \<open>update_one\<close> with
  \<open>upsert=True\<close> changes the first document of the name, or inserts one when there is
  none.
\<close>

record setting_doc =
  setting :: string
  setting_value :: bool

definition find_setting :: "string \<Rightarrow> setting_doc list \<Rightarrow> setting_doc option" where
  "find_setting name coll = find (\<lambda>s. setting s = name) coll"

definition get_location_restriction :: "setting_doc list \<Rightarrow> bool \<times> setting_doc list" where
  "get_location_restriction coll =
     (case find_setting ''location_restriction'' coll of
        Some s \<Rightarrow> (setting_value s, coll)
      | None \<Rightarrow>
          (True, coll @ [\<lparr>setting = ''location_restriction'', setting_value = True\<rparr>]))"

definition set_location_restriction :: "bool \<Rightarrow> setting_doc list \<Rightarrow> setting_doc list" where
  "set_location_restriction v coll =
     (case find_setting ''location_restriction'' coll of
        Some _ \<Rightarrow>
          update_first (\<lambda>s. setting s = ''location_restriction'')
            (\<lambda>s. s\<lparr>setting_value := v\<rparr>) coll
      | None \<Rightarrow> coll @ [\<lparr>setting = ''location_restriction'', setting_value = v\<rparr>])"

section \<open>Notions used to state the properties\<close>

text \<open>
  The minute of the day of a time, the minutes from an arrival to a leaving time with the
  day added when the leaving time is the earlier one, and a record whose leaving time
  and hours are both null or both set.
\<close>

definition minute_of_day :: "datetime \<Rightarrow> int" where
  "minute_of_day t = int (hour t) * 60 + int (minute t)"

definition wrapped_minutes :: "datetime \<Rightarrow> datetime \<Rightarrow> int" where
  "wrapped_minutes arrival leaving =
     (if minute_of_day leaving < minute_of_day arrival
      then minute_of_day leaving + 1440 - minute_of_day arrival
      else minute_of_day leaving - minute_of_day arrival)"


section \<open>A concrete day\<close>

text \<open>A day of one employee, used to run the operations on concrete values.\<close>

definition photo0 :: image where
  "photo0 = \<lparr>img_format = ''JPEG'', img_size = (640, 480)\<rparr>"

definition stored0 :: image where
  "stored0 = \<lparr>img_format = ''PNG'', img_size = (250, 250)\<rparr>"

definition arrived0 :: entry where
  "arrived0 =
     \<lparr>oid = 0, Employee_ID = ''E1'', Name = ''Ann'', Date = 0,
      Arrival_Time = Some ''09:00 AM'', Leaving_Time = None, Hours_Present = None,
      Arrival_Photo = Some stored0, Leaving_Photo = None\<rparr>"

definition left0 :: entry where
  "left0 =
     arrived0\<lparr>Leaving_Time := Some ''05:30 PM'', Hours_Present := Some (17 / 2),
              Leaving_Photo := Some stored0\<rparr>"

definition day0_ops :: "op list" where
  "day0_ops =
     [LogArrival ''E1'' ''Ann'' 0 photo0 \<lparr>hour = 9, minute = 0\<rparr>,
      LogLeaving ''E1'' 0 photo0 \<lparr>hour = 17, minute = 30\<rparr>]"



definition edited_backwards_ops :: "op list" where
  "edited_backwards_ops =
     [LogArrival ''E1'' ''Ann'' 0 photo0 \<lparr>hour = 17, minute = 0\<rparr>,
      AdminUpdate ''E1'' 0 (Some ''05:00 PM'') (Some ''09:00 AM'')]"

definition logged_backwards_ops :: "op list" where
  "logged_backwards_ops =
     [LogArrival ''E1'' ''Ann'' 0 photo0 \<lparr>hour = 17, minute = 0\<rparr>,
      LogLeaving ''E1'' 0 photo0 \<lparr>hour = 9, minute = 0\<rparr>]"

definition restriction_off :: "setting_doc list" where
  "restriction_off = [\<lparr>setting = ''location_restriction'', setting_value = False\<rparr>]"

section \<open>Lists: first match and update of the first match\<close>

lemma find_one_SomeD:
  "find_one emp_id d coll = Some e \<Longrightarrow> e \<in> set coll \<and> Employee_ID e = emp_id \<and> Date e = d"
  unfolding find_one_def by (auto simp: find_Some_iff)

lemma find_one_None_iff:
  "find_one emp_id d coll = None \<longleftrightarrow> (emp_id, d) \<notin> set (map key coll)"
  unfolding find_one_def key_def by (auto simp: find_None_iff)

lemma map_update_first:
  "(\<And>x. g (f x) = g x) \<Longrightarrow> map g (update_first P f xs) = map g xs"
  by (induction xs) auto


lemma find_update_first:
  assumes "find P xs = Some x" and "\<And>y. P (f y) = P y" and "distinct (map g xs)"
  shows "find P (update_first (\<lambda>y. g y = g x) f xs) = Some (f x)"
  using assms(1,3)
proof (induction xs)
  case Nil
  then show ?case by simp
next
  case (Cons a xs)
  show ?case
  proof (cases "P a")
    case True
    with Cons.prems have "a = x" by simp
    with True assms(2) show ?thesis by simp
  next
    case False
    with Cons.prems have fx: "find P xs = Some x" by simp
    then have "x \<in> set xs" by (auto simp: find_Some_iff)
    with Cons.prems have "g a \<noteq> g x" by auto
    with False fx Cons show ?thesis by (simp add: assms(2))
  qed
qed

lemma log_leaving_success:
  assumes "fst (log_leaving emp_id d photo now coll) = Inr (True, msg)"
  shows "\<exists>e. find_one emp_id d coll = Some e \<and> Leaving_Time e = None"
  using assms unfolding log_leaving_def
  by (auto split: option.splits if_splits)

lemma log_leaving_no_record:
  "find_one emp_id d coll = None \<Longrightarrow> log_leaving emp_id d photo now coll = (Inr NoArrivalError, coll)"
  by (simp add: log_leaving_def NoArrivalError_def)

lemma log_leaving_completed:
  "find_one emp_id d coll = Some e \<Longrightarrow> Leaving_Time e \<noteq> None \<Longrightarrow>
   log_leaving emp_id d photo now coll = (Inr AlreadyCompletedError, coll)"
  by (simp add: log_leaving_def AlreadyCompletedError_def)

lemma log_leaving_updates:
  assumes "fst (log_leaving emp_id d photo now coll) = Inr (True, msg)"
  obtains e s a where "find_one emp_id d coll = Some e" and "Leaving_Time e = None"
    and "Arrival_Time e = Some s" and "strptime s = Some a"
    and "snd (log_leaving emp_id d photo now coll) =
             update_one (oid e)
               (\<lambda>r. r\<lparr>Leaving_Time := Some (strftime now),
                      Hours_Present := Some (py_round2 (time_diff a now)),
                      Leaving_Photo := Some (save_image photo)\<rparr>) coll"
  using assms unfolding log_leaving_def
  by (auto split: option.splits if_splits)

lemma find_one_update_one:
  assumes "find_one emp_id d coll = Some e" and "\<And>r. key (f r) = key r" and "distinct (map oid coll)"
  shows "find_one emp_id d (update_one (oid e) f coll) = Some (f e)"
  unfolding find_one_def update_one_def
proof (rule find_update_first)
  show "find (\<lambda>e. Employee_ID e = emp_id \<and> Date e = d) coll = Some e"
    using assms(1) by (simp add: find_one_def)
  show "\<And>y. (Employee_ID (f y) = emp_id \<and> Date (f y) = d) = (Employee_ID y = emp_id \<and> Date y = d)"
    using assms(2) by (simp add: key_def)
  show "distinct (map oid coll)" by (rule assms(3))
qed

lemma log_leaving_twice:
  assumes "fst (log_leaving emp_id d photo now coll) = Inr (True, msg)" and "distinct (map oid coll)"
  shows "fst (log_leaving emp_id d photo' now' (snd (log_leaving emp_id d photo now coll))) =
           Inr AlreadyCompletedError"
proof (rule log_leaving_updates [OF assms(1)])
  fix e s a
  assume f: "find_one emp_id d coll = Some e"
    and u: "snd (log_leaving emp_id d photo now coll) =
             update_one (oid e)
               (\<lambda>r. r\<lparr>Leaving_Time := Some (strftime now),
                      Hours_Present := Some (py_round2 (time_diff a now)),
                      Leaving_Photo := Some (save_image photo)\<rparr>) coll"
  have "find_one emp_id d (snd (log_leaving emp_id d photo now coll)) =
      Some (e\<lparr>Leaving_Time := Some (strftime now),
                      Hours_Present := Some (py_round2 (time_diff a now)),
                      Leaving_Photo := Some (save_image photo)\<rparr>)"
    unfolding u by (rule find_one_update_one [OF f _ assms(2)]) (simp add: key_def)
  then show ?thesis
    by (simp add: log_leaving_completed)
qed

section \<open>Identifiers and keys along a run\<close>

lemma fold_max_ge: "n \<le> fold (\<lambda>e n. max n (Suc (oid e))) coll n"
proof (induction coll arbitrary: n)
  case Nil
  show ?case by simp
next
  case (Cons a coll)
  have "n \<le> max n (Suc (oid a))" by simp
  also have "\<dots> \<le> fold (\<lambda>e n. max n (Suc (oid e))) coll (max n (Suc (oid a)))" by (rule Cons.IH)
  finally show ?case by simp
qed

lemma fold_max_gt: "e \<in> set coll \<Longrightarrow> oid e < fold (\<lambda>e n. max n (Suc (oid e))) coll n"
proof (induction coll arbitrary: n)
  case Nil
  then show ?case by simp
next
  case (Cons a coll)
  show ?case
  proof (cases "e = a")
    case True
    have "oid a < max n (Suc (oid a))" by simp
    also have "\<dots> \<le> fold (\<lambda>e n. max n (Suc (oid e))) coll (max n (Suc (oid a)))" by (rule fold_max_ge)
    finally show ?thesis using True by simp
  next
    case False
    with Cons.prems have "e \<in> set coll" by simp
    then show ?thesis using Cons.IH by simp
  qed
qed

lemma fresh_oid_fresh: "fresh_oid coll \<notin> oid ` set coll"
  using fold_max_gt [of _ coll 0] unfolding fresh_oid_def by fastforce

lemma distinct_oid_insert_one: "distinct (map oid coll) \<Longrightarrow> distinct (map oid (insert_one e coll))"
  using fresh_oid_fresh [of coll] by (simp add: insert_one_def)

lemma map_oid_update_one: "(\<And>r. oid (f r) = oid r) \<Longrightarrow> map oid (update_one i f coll) = map oid coll"
  unfolding update_one_def by (rule map_update_first)

lemma map_key_update_one: "(\<And>r. key (f r) = key r) \<Longrightarrow> map key (update_one i f coll) = map key coll"
  unfolding update_one_def by (rule map_update_first)

lemma map_key_insert_one: "map key (insert_one e coll) = map key coll @ [key e]"
  by (simp add: insert_one_def key_def)

lemma map_key_log_arrival:
  "map key (snd (log_arrival emp_id name d photo now coll)) =
     (if find_one emp_id d coll = None then map key coll @ [(emp_id, d)] else map key coll)"
  by (simp add: log_arrival_def map_key_insert_one key_def split: option.splits)

lemma map_key_log_leaving:
  "map key (snd (log_leaving emp_id d photo now coll)) = map key coll"
  by (simp add: log_leaving_def map_key_update_one key_def split: option.splits)

lemma map_key_admin_update:
  "map key (admin_update emp_id d arr_time leave_time coll) = map key coll"
  by (simp add: admin_update_def map_key_update_one key_def split: option.splits)

lemma distinct_oid_exec: "distinct (map oid coll) \<Longrightarrow> distinct (map oid (snd (exec x coll)))"
proof (cases x)
  case (LogArrival emp_id name d photo now)
  assume "distinct (map oid coll)"
  then show ?thesis unfolding LogArrival
    by (simp add: log_arrival_def distinct_oid_insert_one split: option.splits)
next
  case (LogLeaving emp_id d photo now)
  assume "distinct (map oid coll)"
  then show ?thesis unfolding LogLeaving
    by (simp add: log_leaving_def map_oid_update_one split: option.splits sum.splits prod.splits)
next
  case (AdminUpdate emp_id d arr_time leave_time)
  assume "distinct (map oid coll)"
  then show ?thesis unfolding AdminUpdate
    by (simp add: admin_update_def map_oid_update_one split: option.splits)
qed

lemma map_key_exec:
  "map key (snd (exec x coll)) =
     (case x of
        LogArrival emp_id name d photo now \<Rightarrow>
          if find_one emp_id d coll = None then map key coll @ [(emp_id, d)] else map key coll
      | _ \<Rightarrow> map key coll)"
proof (cases x)
  case (LogArrival emp_id name d photo now)
  have "snd (exec x coll) = snd (log_arrival emp_id name d photo now coll)"
    unfolding LogArrival by (simp split: prod.splits)
  then show ?thesis by (simp add: LogArrival map_key_log_arrival)
next
  case (LogLeaving emp_id d photo now)
  have "snd (exec x coll) = snd (log_leaving emp_id d photo now coll)"
    unfolding LogLeaving by (simp split: prod.splits sum.splits)
  then show ?thesis by (simp add: LogLeaving map_key_log_leaving)
next
  case (AdminUpdate emp_id d arr_time leave_time)
  then show ?thesis by (simp add: map_key_admin_update)
qed

lemma distinct_key_exec: "distinct (map key coll) \<Longrightarrow> distinct (map key (snd (exec x coll)))"
  unfolding map_key_exec by (cases x) (simp_all add: find_one_None_iff)

lemma snd_run_Cons: "snd (run (x # xs) coll) = snd (run xs (snd (exec x coll)))"
  by (simp split: prod.splits)

lemma fst_run_Cons: "fst (run (x # xs) coll) = fst (exec x coll) # fst (run xs (snd (exec x coll)))"
  by (simp split: prod.splits)

lemma length_fst_run: "length (fst (run xs coll)) = length xs"
  by (induction xs arbitrary: coll) (simp_all add: fst_run_Cons del: run.simps(2))

lemma distinct_oid_run: "distinct (map oid coll) \<Longrightarrow> distinct (map oid (snd (run xs coll)))"
  by (induction xs arbitrary: coll) (simp_all add: snd_run_Cons distinct_oid_exec del: run.simps(2))

lemma distinct_key_run: "distinct (map key coll) \<Longrightarrow> distinct (map key (snd (run xs coll)))"
  by (induction xs arbitrary: coll) (simp_all add: snd_run_Cons distinct_key_exec del: run.simps(2))

section \<open>Leaving after arrival; paired leaving time and hours\<close>

lemma exec_leaving_success:
  assumes "fst (exec (LogLeaving emp_id d photo now) coll) = Returned (True, msg)"
  shows "(emp_id, d) \<in> set (map key coll)"
proof -
  have "fst (log_leaving emp_id d photo now coll) = Inr (True, msg)"
    using assms by (simp split: prod.splits sum.splits)
  from log_leaving_success [OF this] have "find_one emp_id d coll \<noteq> None" by auto
  then show ?thesis by (simp add: find_one_None_iff)
qed

lemma exec_new_key:
  assumes "k \<in> set (map key (snd (exec x coll)))" and "k \<notin> set (map key coll)"
  shows "\<exists>name photo now. x = LogArrival (fst k) name (snd k) photo now \<and>
           fst (exec x coll) = Returned (True, ''Arrival logged successfully.'')"
proof (cases x)
  case (LogArrival emp_id name d photo now)
  from assms have "find_one emp_id d coll = None \<and> k = (emp_id, d)"
    unfolding map_key_exec LogArrival by (auto split: if_splits)
  then show ?thesis
    unfolding LogArrival by (simp add: log_arrival_def)
next
  case (LogLeaving emp_id d photo now)
  with assms show ?thesis unfolding map_key_exec by simp
next
  case (AdminUpdate emp_id d arr_time leave_time)
  with assms show ?thesis unfolding map_key_exec by simp
qed

lemma leaving_needs_arrival:
  assumes "k < length ops" and "ops ! k = LogLeaving emp_id d photo now"
    and "fst (run ops coll) ! k = Returned (True, msg)"
  shows "(emp_id, d) \<in> set (map key coll) \<or>
         (\<exists>j<k. \<exists>name photo' now'. ops ! j = LogArrival emp_id name d photo' now' \<and>
            fst (run ops coll) ! j = Returned (True, ''Arrival logged successfully.''))"
  using assms
proof (induction ops arbitrary: coll k)
  case Nil
  then show ?case by simp
next
  case (Cons x xs)
  show ?case
  proof (cases k)
    case 0
    with Cons.prems have "fst (exec (LogLeaving emp_id d photo now) coll) = Returned (True, msg)"
      by (simp add: fst_run_Cons del: run.simps exec.simps)
    then show ?thesis using exec_leaving_success by blast
  next
    case (Suc k')
    with Cons.prems have a: "k' < length xs" and b: "xs ! k' = LogLeaving emp_id d photo now"
      and c: "fst (run xs (snd (exec x coll))) ! k' = Returned (True, msg)"
      by (simp_all add: fst_run_Cons del: run.simps exec.simps)
    from Cons.IH [OF a b c] consider
      (old) "(emp_id, d) \<in> set (map key (snd (exec x coll)))"
      | (later) j name photo' now' where "j < k'" "xs ! j = LogArrival emp_id name d photo' now'"
         "fst (run xs (snd (exec x coll))) ! j = Returned (True, ''Arrival logged successfully.'')"
      by blast
    then show ?thesis
    proof cases
      case old
      show ?thesis
      proof (cases "(emp_id, d) \<in> set (map key coll)")
        case True
        then show ?thesis by simp
      next
        case False
        from exec_new_key [OF old False] obtain name photo' now' where
          "x = LogArrival emp_id name d photo' now'"
          "fst (exec x coll) = Returned (True, ''Arrival logged successfully.'')"
          by auto
        then have "(x # xs) ! 0 = LogArrival emp_id name d photo' now' \<and>
            fst (run (x # xs) coll) ! 0 = Returned (True, ''Arrival logged successfully.'')"
          by (simp add: fst_run_Cons del: run.simps exec.simps)
        moreover have "0 < k" using Suc by simp
        ultimately show ?thesis by blast
      qed
    next
      case later
      then have "(x # xs) ! Suc j = LogArrival emp_id name d photo' now' \<and>
            fst (run (x # xs) coll) ! Suc j = Returned (True, ''Arrival logged successfully.'')"
        by (simp add: fst_run_Cons del: run.simps exec.simps)
      moreover have "Suc j < k" using Suc later(1) by simp
      ultimately show ?thesis by blast
    qed
  qed
qed




lemma log_leaving_unchanged:
  "fst (log_leaving emp_id d photo now coll) \<noteq> Inr (True, ''Leaving time logged successfully.'') \<Longrightarrow>
   snd (log_leaving emp_id d photo now coll) = coll"
  by (auto simp: log_leaving_def split: option.splits if_splits)





section \<open>Formatting and parsing a time\<close>

lemma digit_val_le: "digit_val c = Some x \<Longrightarrow> x \<le> 9"
  by (auto simp: digit_val_def split: if_splits)

lemma match_I_range: "match_I s = Some (h, r) \<Longrightarrow> 1 \<le> h \<and> h \<le> 12"
  unfolding match_I_def
  by (auto split: list.splits option.splits if_splits dest: digit_val_le)

lemma match_M_range: "match_M s = Some (m, r) \<Longrightarrow> m \<le> 59"
  unfolding match_M_def
  by (auto split: list.splits option.splits if_splits dest!: digit_val_le)

lemma strptime_valid: "strptime s = Some t \<Longrightarrow> valid_time t"
  unfolding strptime_def valid_time_def
  by (auto split: list.splits option.splits if_splits prod.splits dest!: match_I_range match_M_range)

lemma digit_val_digit_char: "digit_val (digit_char d) = Some (d mod 10)"
proof -
  have "d mod 10 < 10" by simp
  then have "d mod 10 = 0 \<or> d mod 10 = 1 \<or> d mod 10 = 2 \<or> d mod 10 = 3 \<or> d mod 10 = 4 \<or>
      d mod 10 = 5 \<or> d mod 10 = 6 \<or> d mod 10 = 7 \<or> d mod 10 = 8 \<or> d mod 10 = 9"
    by arith
  then show ?thesis
    unfolding digit_char_def digit_val_def by (elim disjE) simp_all
qed

lemma match_I_two_digits:
  assumes "1 \<le> n" and "n \<le> 12"
  shows "match_I (two_digits n @ r) = Some (n, r)"
proof -
  have "n div 10 mod 10 = n div 10" using assms by simp
  moreover have "n < 10 \<or> (n div 10 = 1 \<and> n mod 10 \<le> 2 \<and> n = 10 + n mod 10)" using assms by presburger
  moreover have "n < 10 \<Longrightarrow> n div 10 = 0 \<and> n mod 10 = n" by simp
  ultimately show ?thesis
    using assms unfolding match_I_def two_digits_def
    by (auto simp: digit_val_digit_char)
qed

lemma match_M_two_digits:
  assumes "n < 60"
  shows "match_M (two_digits n @ r) = Some (n, r)"
proof -
  have "n div 10 mod 10 = n div 10" "n div 10 \<le> 5" using assms by simp_all
  then show ?thesis
    unfolding match_M_def two_digits_def
    by (simp add: digit_val_digit_char)
qed

lemma hour12_range: "1 \<le> hour12 h \<and> hour12 h \<le> 12"
  unfolding hour12_def by (simp add: Suc_leI less_imp_le)

lemma strptime_strftime:
  assumes "valid_time t"
  shows "strptime (strftime t) = Some t"
proof -
  have h: "hour t < 24" and m: "minute t < 60" using assms by (simp_all add: valid_time_def)
  have I: "match_I (two_digits (hour12 (hour t)) @ r) = Some (hour12 (hour t), r)" for r
    using hour12_range by (intro match_I_two_digits) simp_all
  have M: "match_M (two_digits (minute t) @ r) = Some (minute t, r)" for r
    using m by (rule match_M_two_digits)
  have sp: "is_space CHR '' ''" "\<not> is_space CHR ''A''" "\<not> is_space CHR ''P''"
    by (simp_all add: is_space_def)
  show ?thesis
  proof (cases "hour t < 12")
    case True
    then have hv: "(if hour12 (hour t) = 12 then 0 else hour12 (hour t)) = hour t"
      by (auto simp: hour12_def)
    show ?thesis
      unfolding strptime_def strftime_def using True
      by (simp add: I M sp match_p_def hv)
  next
    case False
    with h have hv: "(if hour12 (hour t) = 12 then 12 else hour12 (hour t) + 12) = hour t"
      unfolding hour12_def by (auto simp: mod_if)
    show ?thesis
      unfolding strptime_def strftime_def using False
      by (simp add: I M sp match_p_def hv)
  qed
qed

section \<open>Rounded elapsed hours\<close>

lemma frac3: "(of_int k / 3 :: rat) - of_int (k div 3) = of_int (k mod 3) / 3"
proof -
  have "k = 3 * (k div 3) + k mod 3" by simp
  then have "(of_int k :: rat) = 3 * of_int (k div 3) + of_int (k mod 3)"
    by (metis of_int_add of_int_mult of_int_numeral)
  then show ?thesis by (simp add: field_simps)
qed

lemma round_thirds: "round_half_even (of_int k / 3) = (2 * k + 3) div 6"
proof -
  have fl: "\<lfloor>(of_int k / 3 :: rat)\<rfloor> = k div 3"
    using floor_divide_of_int_eq [of k 3, where ?'a = rat] by simp
  have m: "k mod 3 = 0 \<or> k mod 3 = 1 \<or> k mod 3 = 2" by presburger
  show ?thesis
    unfolding round_half_even_def Let_def fl frac3
    using m by (elim disjE) (simp_all, presburger+)
qed

lemma py_round2_minutes:
  "py_round2 (of_int (60 * w) / 3600) = of_int ((10 * w + 3) div 6) / 100"
proof -
  have x: "(of_int (60 * w) / 3600 :: rat) * 100 = of_int (5 * w) / 3"
    by simp
  show ?thesis
    unfolding py_round2_def x round_thirds by simp
qed

lemma time_diff_minutes:
  "time_diff arrival leaving = of_int (60 * wrapped_minutes arrival leaving) / 3600"
proof -
  have ts: "total_seconds leaving arrival = 60 * (minute_of_day leaving - minute_of_day arrival)"
    by (simp add: total_seconds_def minute_of_day_def)
  have neg: "((of_int (total_seconds leaving arrival) / 3600 :: rat) < 0) =
      (minute_of_day leaving < minute_of_day arrival)"
    unfolding ts by (simp add: divide_less_0_iff)
  show ?thesis
  proof (cases "minute_of_day leaving < minute_of_day arrival")
    case True
    have e: "total_seconds leaving arrival + 86400 = 60 * wrapped_minutes arrival leaving"
      using True by (simp add: ts wrapped_minutes_def)
    have "time_diff arrival leaving = of_int (total_seconds leaving arrival + 86400) / 3600"
      unfolding time_diff_def Let_def neg using True by (simp only: if_True)
    then show ?thesis by (simp only: e)
  next
    case False
    have e: "total_seconds leaving arrival = 60 * wrapped_minutes arrival leaving"
      using False by (simp add: ts wrapped_minutes_def)
    have "time_diff arrival leaving = of_int (total_seconds leaving arrival) / 3600"
      unfolding time_diff_def Let_def neg using False by (simp only: if_False)
    then show ?thesis by (simp only: e)
  qed
qed

lemma wrapped_minutes_nonneg:
  "valid_time arrival \<Longrightarrow> 0 \<le> wrapped_minutes arrival leaving"
  unfolding wrapped_minutes_def minute_of_day_def valid_time_def by auto

lemma hours_nonneg:
  assumes "valid_time arrival"
  shows "0 \<le> py_round2 (time_diff arrival leaving)"
proof -
  have "0 \<le> (10 * wrapped_minutes arrival leaving + 3) div 6"
    using wrapped_minutes_nonneg [OF assms, of leaving] by (simp add: pos_imp_zdiv_nonneg_iff)
  then show ?thesis
    unfolding time_diff_minutes py_round2_minutes by simp
qed

lemma hours_close:
  "\<bar>py_round2 (time_diff arrival leaving) - time_diff arrival leaving\<bar> \<le> 1 / 200"
proof -
  define w where "w = wrapped_minutes arrival leaving"
  define q where "q = (10 * w + 3) div 6"
  have i1: "6 * q \<le> 10 * w + 3" and i2: "10 * w + 3 < 6 * q + 6"
    unfolding q_def by presburger+
  have "(of_int (6 * q) :: rat) \<le> of_int (10 * w + 3)"
    using i1 by (simp only: of_int_le_iff)
  then have r1: "(6 * of_int q :: rat) \<le> 10 * of_int w + 3" by simp
  have "(of_int (10 * w + 3) :: rat) < of_int (6 * q + 6)"
    using i2 by (simp only: of_int_less_iff)
  then have r2: "(10 * of_int w + 3 :: rat) < 6 * of_int q + 6" by simp
  have e: "(of_int (60 * w) / 3600 :: rat) = of_int w / 60" by simp
  have "\<bar>(of_int q / 100 :: rat) - of_int (60 * w) / 3600\<bar> \<le> 1 / 200"
    unfolding e using r1 r2 by linarith
  then show ?thesis
    unfolding time_diff_minutes py_round2_minutes w_def q_def .
qed

lemma hours_same_time:
  assumes "hour leaving = hour arrival" and "minute leaving = minute arrival"
  shows "time_diff arrival leaving = 0 \<and> py_round2 (time_diff arrival leaving) = 0"
proof -
  have "wrapped_minutes arrival leaving = 0"
    using assms by (simp add: wrapped_minutes_def minute_of_day_def)
  then show ?thesis
    unfolding time_diff_minutes py_round2_minutes by simp
qed

lemma hours_example_day: "py_round2 (time_diff \<lparr>hour = 9, minute = 0\<rparr> \<lparr>hour = 17, minute = 30\<rparr>) = 17 / 2"
  unfolding time_diff_minutes py_round2_minutes
  by (simp add: wrapped_minutes_def minute_of_day_def)

lemma hours_example_night: "py_round2 (time_diff \<lparr>hour = 23, minute = 50\<rparr> \<lparr>hour = 0, minute = 10\<rparr>) = 33 / 100"
  unfolding time_diff_minutes py_round2_minutes
  by (simp add: wrapped_minutes_def minute_of_day_def)

section \<open>What the logging functions and the edit store\<close>

lemma log_arrival_new:
  assumes "find_one emp_id d coll = None"
  shows "log_arrival emp_id name d photo now coll =
     ((True, ''Arrival logged successfully.''),
      coll @ [\<lparr>oid = fresh_oid coll, Employee_ID = emp_id, Name = name, Date = d,
               Arrival_Time = Some (strftime now), Leaving_Time = None,
               Hours_Present = None, Arrival_Photo = Some (save_image photo),
               Leaving_Photo = None\<rparr>])"
  using assms by (simp add: log_arrival_def insert_one_def)


lemma log_leaving_stores:
  assumes "find_one emp_id d coll = Some e" and "Leaving_Time e = None"
    and "Arrival_Time e = Some s" and "strptime s = Some a" and "distinct (map oid coll)"
  shows "fst (log_leaving emp_id d photo now coll) = Inr (True, ''Leaving time logged successfully.'') \<and>
         find_one emp_id d (snd (log_leaving emp_id d photo now coll)) =
           Some (e\<lparr>Leaving_Time := Some (strftime now),
                   Hours_Present := Some (py_round2 (time_diff a now)),
                   Leaving_Photo := Some (save_image photo)\<rparr>)"
proof -
  have l: "log_leaving emp_id d photo now coll =
      (Inr (True, ''Leaving time logged successfully.''),
       update_one (oid e)
         (\<lambda>r. r\<lparr>Leaving_Time := Some (strftime now),
                Hours_Present := Some (py_round2 (time_diff a now)),
                Leaving_Photo := Some (save_image photo)\<rparr>) coll)"
    using assms(1-4) by (simp add: log_leaving_def)
  have "find_one emp_id d
          (update_one (oid e)
            (\<lambda>r. r\<lparr>Leaving_Time := Some (strftime now),
                   Hours_Present := Some (py_round2 (time_diff a now)),
                   Leaving_Photo := Some (save_image photo)\<rparr>) coll) =
        Some (e\<lparr>Leaving_Time := Some (strftime now),
                Hours_Present := Some (py_round2 (time_diff a now)),
                Leaving_Photo := Some (save_image photo)\<rparr>)"
    by (rule find_one_update_one [OF assms(1) _ assms(5)]) (simp add: key_def)
  then show ?thesis unfolding l by simp
qed

lemma total_seconds_minutes:
  "total_seconds later earlier = 60 * (minute_of_day later - minute_of_day earlier)"
  by (simp add: total_seconds_def minute_of_day_def)

lemma edit_hours_parsed:
  assumes "strptime a = Some arr_dt" and "strptime l = Some leave_dt"
  shows "edit_hours (Some a) (Some l) =
           Some (of_int ((10 * (minute_of_day leave_dt - minute_of_day arr_dt) + 3) div 6) / 100)"
  unfolding edit_hours_def total_seconds_minutes py_round2_minutes
  using assms by simp

section \<open>Reading the setting after writing it\<close>

lemma find_update_first_same:
  "find P xs = Some x \<Longrightarrow> P (f x) \<Longrightarrow> find P (update_first P f xs) = Some (f x)"
  by (induction xs) (auto split: if_splits)

lemma find_append_one:
  "find P xs = None \<Longrightarrow> P y \<Longrightarrow> find P (xs @ [y]) = Some y"
  by (induction xs) (auto split: if_splits)

lemma get_location_restriction_found:
  "find_setting ''location_restriction'' coll = Some s \<Longrightarrow>
   get_location_restriction coll = (setting_value s, coll)"
  by (simp add: get_location_restriction_def)

lemma get_location_restriction_absent:
  "find_setting ''location_restriction'' coll = None \<Longrightarrow>
   get_location_restriction coll =
     (True, coll @ [\<lparr>setting = ''location_restriction'', setting_value = True\<rparr>])"
  by (simp add: get_location_restriction_def)

lemma find_setting_after_set:
  "\<exists>s. find_setting ''location_restriction'' (set_location_restriction v coll) = Some s \<and>
       setting_value s = v"
proof (cases "find_setting ''location_restriction'' coll")
  case None
  then have "find_setting ''location_restriction'' (set_location_restriction v coll) =
      Some \<lparr>setting = ''location_restriction'', setting_value = v\<rparr>"
    unfolding find_setting_def set_location_restriction_def
    by (simp add: find_append_one)
  then show ?thesis by simp
next
  case (Some s)
  then have "setting s = ''location_restriction''"
    unfolding find_setting_def by (auto simp: find_Some_iff)
  with Some have "find_setting ''location_restriction'' (set_location_restriction v coll) =
      Some (s\<lparr>setting_value := v\<rparr>)"
    unfolding find_setting_def set_location_restriction_def
    by (simp add: find_update_first_same)
  then show ?thesis by simp
qed

lemma get_after_set:
  "get_location_restriction (set_location_restriction v coll) = (v, set_location_restriction v coll)"
proof -
  from find_setting_after_set [of v coll] obtain s where
    "find_setting ''location_restriction'' (set_location_restriction v coll) = Some s"
    and "setting_value s = v"
    by blast
  then show ?thesis by (simp add: get_location_restriction_found)
qed

lemma gets_after_set:
  "((\<lambda>c. snd (get_location_restriction c)) ^^ n) (set_location_restriction v coll) =
     set_location_restriction v coll"
  by (induction n) (simp_all add: get_after_set)

lemma get_twice:
  "get_location_restriction (snd (get_location_restriction coll)) =
     (fst (get_location_restriction coll), snd (get_location_restriction coll))"
proof (cases "find_setting ''location_restriction'' coll")
  case None
  have "find_setting ''location_restriction''
      (coll @ [\<lparr>setting = ''location_restriction'', setting_value = True\<rparr>]) =
      Some \<lparr>setting = ''location_restriction'', setting_value = True\<rparr>"
    using None unfolding find_setting_def by (simp add: find_append_one)
  then show ?thesis
    by (simp add: get_location_restriction_absent [OF None] get_location_restriction_found)
next
  case (Some s)
  then show ?thesis by (simp add: get_location_restriction_found)
qed

section \<open>The operations on a concrete day\<close>

lemma save_image_photo0: "save_image photo0 = stored0"
  by (simp add: save_image_def save_def resize_def photo0_def stored0_def)

lemma strftime_9: "strftime \<lparr>hour = 9, minute = 0\<rparr> = ''09:00 AM''"
  by (simp add: strftime_def two_digits_def hour12_def digit_char_def)

lemma strftime_1730: "strftime \<lparr>hour = 17, minute = 30\<rparr> = ''05:30 PM''"
  by (simp add: strftime_def two_digits_def hour12_def digit_char_def)

lemma strptime_9: "strptime ''09:00 AM'' = Some \<lparr>hour = 9, minute = 0\<rparr>"
  using strptime_strftime [of "\<lparr>hour = 9, minute = 0\<rparr>"]
  by (simp add: strftime_9 valid_time_def)

lemma find_one_empty: "find_one emp_id d [] = None"
  by (simp add: find_one_def)

lemma find_one_arrived0: "find_one ''E1'' 0 [arrived0] = Some arrived0"
  by (simp add: find_one_def arrived0_def)

lemma find_one_left0: "find_one ''E1'' 0 [left0] = Some left0"
  by (simp add: find_one_def left0_def arrived0_def)

lemma log_arrival_day0:
  "log_arrival ''E1'' ''Ann'' 0 photo0 \<lparr>hour = 9, minute = 0\<rparr> [] =
     ((True, ''Arrival logged successfully.''), [arrived0])"
  by (simp add: log_arrival_new find_one_empty fresh_oid_def strftime_9 save_image_photo0 arrived0_def)

lemma log_leaving_day0:
  "log_leaving ''E1'' 0 photo0 \<lparr>hour = 17, minute = 30\<rparr> [arrived0] =
     (Inr (True, ''Leaving time logged successfully.''), [left0])"
proof -
  have "Leaving_Time arrived0 = None" "Arrival_Time arrived0 = Some ''09:00 AM''"
    by (simp_all add: arrived0_def)
  then show ?thesis
    unfolding log_leaving_def
    by (simp add: find_one_arrived0 strptime_9 hours_example_day strftime_1730 save_image_photo0
        update_one_def left0_def)
qed

lemma run_day0:
  "run day0_ops [] =
     ([Returned (True, ''Arrival logged successfully.''),
       Returned (True, ''Leaving time logged successfully.'')], [left0])"
  by (simp add: day0_ops_def log_arrival_day0 log_leaving_day0)

lemma leaving_fields_day0: "Leaving_Time arrived0 = None \<and> Leaving_Time left0 \<noteq> None"
  by (simp add: arrived0_def left0_def)



lemma strftime_17: "strftime \<lparr>hour = 17, minute = 0\<rparr> = ''05:00 PM''"
  by (simp add: strftime_def two_digits_def hour12_def digit_char_def)

lemma strptime_17: "strptime ''05:00 PM'' = Some \<lparr>hour = 17, minute = 0\<rparr>"
  using strptime_strftime [of "\<lparr>hour = 17, minute = 0\<rparr>"]
  by (simp add: strftime_17 valid_time_def)



lemma edit_hours_backwards: "edit_hours (Some ''05:00 PM'') (Some ''09:00 AM'') = Some (- 8)"
  unfolding edit_hours_parsed [OF strptime_17 strptime_9]
  by (simp add: minute_of_day_def)



lemma run_edited_backwards:
  "snd (run edited_backwards_ops []) =
     [\<lparr>oid = 0, Employee_ID = ''E1'', Name = ''Ann'', Date = 0,
       Arrival_Time = Some ''05:00 PM'', Leaving_Time = Some ''09:00 AM'',
       Hours_Present = Some (- 8), Arrival_Photo = Some stored0, Leaving_Photo = None\<rparr>]"
  by (simp add: edited_backwards_ops_def log_arrival_new find_one_empty fresh_oid_def
      strftime_17 save_image_photo0 admin_update_def find_one_def update_one_def
      edit_hours_backwards)

lemma hours_backwards: "py_round2 (time_diff \<lparr>hour = 17, minute = 0\<rparr> \<lparr>hour = 9, minute = 0\<rparr>) = 16"
  unfolding time_diff_minutes py_round2_minutes
  by (simp add: wrapped_minutes_def minute_of_day_def)

lemma run_logged_backwards:
  "snd (run logged_backwards_ops []) =
     [\<lparr>oid = 0, Employee_ID = ''E1'', Name = ''Ann'', Date = 0,
       Arrival_Time = Some ''05:00 PM'', Leaving_Time = Some ''09:00 AM'',
       Hours_Present = Some 16, Arrival_Photo = Some stored0, Leaving_Photo = Some stored0\<rparr>]"
  by (simp add: logged_backwards_ops_def log_arrival_new find_one_empty fresh_oid_def
      strftime_17 strftime_9 save_image_photo0 log_leaving_def find_one_def update_one_def
      strptime_17 hours_backwards)

lemma find_setting_concrete:
  "find_setting ''location_restriction'' [] = None \<and>
   find_setting ''location_restriction'' restriction_off =
     Some \<lparr>setting = ''location_restriction'', setting_value = False\<rparr>"
  by (simp add: find_setting_def restriction_off_def)

section \<open>The claims\<close>

subsection \<open>Logging an arrival\<close>



subsection \<open>Logging a leaving\<close>

text \<open>
  Claim C1. \<open>log_leaving\<close> succeeds only when a record of the employee and the date
  exists and its leaving time is null. With no record it answers the missing-arrival
  response, with a leaving time already set the already-completed response; so a second
  call after a success is refused. In a run of operations from the empty collection, a
  successful \<open>log_leaving\<close> comes after a successful \<open>log_arrival\<close> of the same
  employee and date.
\<close>

theorem log_leaving_guarded:
  "(fst (log_leaving emp_id d photo now coll) = Inr (True, msg) \<longrightarrow>
      (\<exists>e. find_one emp_id d coll = Some e \<and> Leaving_Time e = None)) \<and>
   (find_one emp_id d coll = None \<longrightarrow>
      fst (log_leaving emp_id d photo now coll) = Inr NoArrivalError) \<and>
   (\<forall>e. find_one emp_id d coll = Some e \<and> Leaving_Time e \<noteq> None \<longrightarrow>
      fst (log_leaving emp_id d photo now coll) = Inr AlreadyCompletedError) \<and>
   (fst (log_leaving emp_id d photo now coll) = Inr (True, msg) \<and> distinct (map oid coll) \<longrightarrow>
      fst (log_leaving emp_id d photo' now' (snd (log_leaving emp_id d photo now coll))) =
        Inr AlreadyCompletedError) \<and>
   (k < length ops \<and> ops ! k = LogLeaving emp_id d photo now \<and>
    fst (run ops []) ! k = Returned (True, msg) \<longrightarrow>
      (\<exists>j<k. \<exists>name photo'' now''. ops ! j = LogArrival emp_id name d photo'' now'' \<and>
         fst (run ops []) ! j = Returned (True, ''Arrival logged successfully.'')))"
proof (intro conjI allI impI)
  assume "fst (log_leaving emp_id d photo now coll) = Inr (True, msg)"
  then show "\<exists>e. find_one emp_id d coll = Some e \<and> Leaving_Time e = None"
    by (rule log_leaving_success)
next
  assume "find_one emp_id d coll = None"
  then show "fst (log_leaving emp_id d photo now coll) = Inr NoArrivalError"
    by (simp add: log_leaving_no_record)
next
  fix e
  assume "find_one emp_id d coll = Some e \<and> Leaving_Time e \<noteq> None"
  then show "fst (log_leaving emp_id d photo now coll) = Inr AlreadyCompletedError"
    by (simp add: log_leaving_completed)
next
  assume "fst (log_leaving emp_id d photo now coll) = Inr (True, msg) \<and> distinct (map oid coll)"
  then show "fst (log_leaving emp_id d photo' now' (snd (log_leaving emp_id d photo now coll))) =
        Inr AlreadyCompletedError"
    using log_leaving_twice by blast
next
  assume a: "k < length ops \<and> ops ! k = LogLeaving emp_id d photo now \<and>
    fst (run ops []) ! k = Returned (True, msg)"
  then have "(emp_id, d) \<in> set (map key []) \<or>
         (\<exists>j<k. \<exists>name photo' now'. ops ! j = LogArrival emp_id name d photo' now' \<and>
            fst (run ops []) ! j = Returned (True, ''Arrival logged successfully.''))"
    by (intro leaving_needs_arrival) simp_all
  then show "\<exists>j<k. \<exists>name photo'' now''. ops ! j = LogArrival emp_id name d photo'' now'' \<and>
         fst (run ops []) ! j = Returned (True, ''Arrival logged successfully.'')"
    by simp
qed

theorem log_leaving_guarded_witness:
  "fst (log_leaving ''E1'' 0 photo0 \<lparr>hour = 17, minute = 30\<rparr> [arrived0]) =
     Inr (True, ''Leaving time logged successfully.'') \<and>
   (\<exists>e. find_one ''E1'' 0 [arrived0] = Some e \<and> Leaving_Time e = None) \<and>
   find_one ''E1'' 0 [] = None \<and>
   fst (log_leaving ''E1'' 0 photo0 \<lparr>hour = 17, minute = 30\<rparr> []) = Inr NoArrivalError \<and>
   find_one ''E1'' 0 [left0] = Some left0 \<and> Leaving_Time left0 \<noteq> None \<and>
   fst (log_leaving ''E1'' 0 photo0 \<lparr>hour = 17, minute = 30\<rparr> [left0]) = Inr AlreadyCompletedError \<and>
   distinct (map oid [arrived0]) \<and>
   fst (log_leaving ''E1'' 0 photo0 \<lparr>hour = 18, minute = 0\<rparr>
         (snd (log_leaving ''E1'' 0 photo0 \<lparr>hour = 17, minute = 30\<rparr> [arrived0]))) =
     Inr AlreadyCompletedError \<and>
   1 < length day0_ops \<and>
   day0_ops ! 1 = LogLeaving ''E1'' 0 photo0 \<lparr>hour = 17, minute = 30\<rparr> \<and>
   fst (run day0_ops []) ! 1 = Returned (True, ''Leaving time logged successfully.'') \<and>
   (\<exists>j<1. \<exists>name photo'' now''. day0_ops ! j = LogArrival ''E1'' name 0 photo'' now'' \<and>
      fst (run day0_ops []) ! j = Returned (True, ''Arrival logged successfully.''))"
proof -
  have ops: "1 < length day0_ops"
    "day0_ops ! 1 = LogLeaving ''E1'' 0 photo0 \<lparr>hour = 17, minute = 30\<rparr>"
    "fst (run day0_ops []) ! 1 = Returned (True, ''Leaving time logged successfully.'')"
    unfolding run_day0 by (simp_all add: day0_ops_def)
  note g1 = log_leaving_guarded [where emp_id = "''E1''" and d = 0 and photo = photo0
      and now = "\<lparr>hour = 17, minute = 30\<rparr>" and coll = "[arrived0]"
      and msg = "''Leaving time logged successfully.''" and photo' = photo0
      and now' = "\<lparr>hour = 18, minute = 0\<rparr>" and k = 1 and ops = day0_ops]
  note g2 = log_leaving_guarded [where emp_id = "''E1''" and d = 0 and photo = photo0
      and now = "\<lparr>hour = 17, minute = 30\<rparr>" and coll = "[]"]
  note g3 = log_leaving_guarded [where emp_id = "''E1''" and d = 0 and photo = photo0
      and now = "\<lparr>hour = 17, minute = 30\<rparr>" and coll = "[left0]"]
  have s: "fst (log_leaving ''E1'' 0 photo0 \<lparr>hour = 17, minute = 30\<rparr> [arrived0]) =
     Inr (True, ''Leaving time logged successfully.'')"
    by (simp add: log_leaving_day0)
  have d: "distinct (map oid [arrived0])" by simp
  from g1 s d ops have c1: "(\<exists>e. find_one ''E1'' 0 [arrived0] = Some e \<and> Leaving_Time e = None)"
    and c4: "fst (log_leaving ''E1'' 0 photo0 \<lparr>hour = 18, minute = 0\<rparr>
         (snd (log_leaving ''E1'' 0 photo0 \<lparr>hour = 17, minute = 30\<rparr> [arrived0]))) =
     Inr AlreadyCompletedError"
    and c5: "(\<exists>j<1. \<exists>name photo'' now''. day0_ops ! j = LogArrival ''E1'' name 0 photo'' now'' \<and>
      fst (run day0_ops []) ! j = Returned (True, ''Arrival logged successfully.''))"
    by blast+
  from g2 find_one_empty have c2:
    "fst (log_leaving ''E1'' 0 photo0 \<lparr>hour = 17, minute = 30\<rparr> []) = Inr NoArrivalError"
    by blast
  from g3 find_one_left0 leaving_fields_day0 have c3:
    "fst (log_leaving ''E1'' 0 photo0 \<lparr>hour = 17, minute = 30\<rparr> [left0]) = Inr AlreadyCompletedError"
    by blast
  from s c1 c2 c3 c4 c5 d ops find_one_empty find_one_left0 leaving_fields_day0
  show ?thesis by blast
qed

text \<open>
  Claim C10. When \<open>log_leaving\<close> fails, because no record exists or because the leaving
  time is already set, the collection after the call is the collection before it; the
  same holds for every call that does not return success.
\<close>

theorem log_leaving_failure_writes_nothing:
  "(find_one emp_id d coll = None \<or>
    (\<exists>e. find_one emp_id d coll = Some e \<and> Leaving_Time e \<noteq> None) \<longrightarrow>
      snd (log_leaving emp_id d photo now coll) = coll) \<and>
   (fst (log_leaving emp_id d photo now coll) \<noteq> Inr (True, ''Leaving time logged successfully.'') \<longrightarrow>
      snd (log_leaving emp_id d photo now coll) = coll)"
proof (intro conjI impI)
  assume "find_one emp_id d coll = None \<or>
    (\<exists>e. find_one emp_id d coll = Some e \<and> Leaving_Time e \<noteq> None)"
  then show "snd (log_leaving emp_id d photo now coll) = coll"
    by (auto simp: log_leaving_no_record log_leaving_completed)
next
  assume "fst (log_leaving emp_id d photo now coll) \<noteq> Inr (True, ''Leaving time logged successfully.'')"
  then show "snd (log_leaving emp_id d photo now coll) = coll"
    by (rule log_leaving_unchanged)
qed

theorem log_leaving_failure_writes_nothing_witness:
  "find_one ''E1'' 0 [] = None \<and>
   snd (log_leaving ''E1'' 0 photo0 \<lparr>hour = 17, minute = 30\<rparr> []) = [] \<and>
   find_one ''E1'' 0 [left0] = Some left0 \<and> Leaving_Time left0 \<noteq> None \<and>
   fst (log_leaving ''E1'' 0 photo0 \<lparr>hour = 17, minute = 30\<rparr> [left0]) \<noteq>
     Inr (True, ''Leaving time logged successfully.'') \<and>
   snd (log_leaving ''E1'' 0 photo0 \<lparr>hour = 17, minute = 30\<rparr> [left0]) = [left0]"
proof -
  note w1 = log_leaving_failure_writes_nothing [where emp_id = "''E1''" and d = 0
      and photo = photo0 and now = "\<lparr>hour = 17, minute = 30\<rparr>" and coll = "[]"]
  note w2 = log_leaving_failure_writes_nothing [where emp_id = "''E1''" and d = 0
      and photo = photo0 and now = "\<lparr>hour = 17, minute = 30\<rparr>" and coll = "[left0]"]
  have f: "fst (log_leaving ''E1'' 0 photo0 \<lparr>hour = 17, minute = 30\<rparr> [left0]) \<noteq>
     Inr (True, ''Leaving time logged successfully.'')"
    using find_one_left0 leaving_fields_day0
    by (simp add: log_leaving_completed AlreadyCompletedError_def)
  from w1 find_one_empty have c1: "snd (log_leaving ''E1'' 0 photo0 \<lparr>hour = 17, minute = 30\<rparr> []) = []"
    by blast
  from w2 f have c2: "snd (log_leaving ''E1'' 0 photo0 \<lparr>hour = 17, minute = 30\<rparr> [left0]) = [left0]"
    by blast
  from c1 c2 f find_one_empty find_one_left0 leaving_fields_day0 show ?thesis by blast
qed

subsection \<open>Elapsed hours\<close>

text \<open>
  Claim C3. For well-formed times of day, the hours that \<open>log_leaving\<close> stores are the
  difference of the leaving and the arrival time in hours, with 24 hours added when the
  leaving time of day precedes the arrival time of day, rounded to two decimal places:
  a whole number of hundredths at most half a hundredth from the difference. The result
  is never negative, and equal times give 0 and not 24. 09:00 to 17:30 gives 8.5 and
  23:50 to 00:10 gives 0.33. The arrival time is the one parsed from the record, and a
  time written by \<open>log_arrival\<close> parses back to itself.
\<close>

theorem elapsed_hours_rounded:
  assumes "valid_time arrival" and "valid_time leaving"
  shows
    "time_diff arrival leaving =
       (if minute_of_day leaving < minute_of_day arrival
        then of_int (minute_of_day leaving - minute_of_day arrival) / 60 + 24
        else of_int (minute_of_day leaving - minute_of_day arrival) / 60) \<and>
     (\<exists>n::int. py_round2 (time_diff arrival leaving) = of_int n / 100) \<and>
     \<bar>py_round2 (time_diff arrival leaving) - time_diff arrival leaving\<bar> \<le> 1 / 200 \<and>
     0 \<le> py_round2 (time_diff arrival leaving) \<and>
     (hour leaving = hour arrival \<and> minute leaving = minute arrival \<longrightarrow>
        py_round2 (time_diff arrival leaving) = 0) \<and>
     py_round2 (time_diff \<lparr>hour = 9, minute = 0\<rparr> \<lparr>hour = 17, minute = 30\<rparr>) = 17 / 2 \<and>
     py_round2 (time_diff \<lparr>hour = 23, minute = 50\<rparr> \<lparr>hour = 0, minute = 10\<rparr>) = 33 / 100 \<and>
     strptime (strftime arrival) = Some arrival \<and>
     (\<forall>emp_id d photo coll e s.
        find_one emp_id d coll = Some e \<and> Leaving_Time e = None \<and>
        Arrival_Time e = Some s \<and> strptime s = Some arrival \<and> distinct (map oid coll) \<longrightarrow>
        (\<exists>e'. find_one emp_id d (snd (log_leaving emp_id d photo leaving coll)) = Some e' \<and>
              Hours_Present e' = Some (py_round2 (time_diff arrival leaving))))"
proof (intro conjI allI impI)
  show "time_diff arrival leaving =
       (if minute_of_day leaving < minute_of_day arrival
        then of_int (minute_of_day leaving - minute_of_day arrival) / 60 + 24
        else of_int (minute_of_day leaving - minute_of_day arrival) / 60)"
    unfolding time_diff_minutes wrapped_minutes_def by simp
  show "\<exists>n::int. py_round2 (time_diff arrival leaving) = of_int n / 100"
    unfolding time_diff_minutes py_round2_minutes by blast
  show "\<bar>py_round2 (time_diff arrival leaving) - time_diff arrival leaving\<bar> \<le> 1 / 200"
    by (rule hours_close)
  show "0 \<le> py_round2 (time_diff arrival leaving)"
    by (rule hours_nonneg [OF assms(1)])
  show "py_round2 (time_diff \<lparr>hour = 9, minute = 0\<rparr> \<lparr>hour = 17, minute = 30\<rparr>) = 17 / 2"
    by (rule hours_example_day)
  show "py_round2 (time_diff \<lparr>hour = 23, minute = 50\<rparr> \<lparr>hour = 0, minute = 10\<rparr>) = 33 / 100"
    by (rule hours_example_night)
  show "strptime (strftime arrival) = Some arrival"
    by (rule strptime_strftime [OF assms(1)])
next
  assume "hour leaving = hour arrival \<and> minute leaving = minute arrival"
  then show "py_round2 (time_diff arrival leaving) = 0"
    using hours_same_time by blast
next
  fix emp_id d photo coll e s
  assume a: "find_one emp_id d coll = Some e \<and> Leaving_Time e = None \<and>
        Arrival_Time e = Some s \<and> strptime s = Some arrival \<and> distinct (map oid coll)"
  then have "find_one emp_id d (snd (log_leaving emp_id d photo leaving coll)) =
           Some (e\<lparr>Leaving_Time := Some (strftime leaving),
                   Hours_Present := Some (py_round2 (time_diff arrival leaving)),
                   Leaving_Photo := Some (save_image photo)\<rparr>)"
    using log_leaving_stores [of emp_id d coll e s arrival photo leaving] by blast
  then show "\<exists>e'. find_one emp_id d (snd (log_leaving emp_id d photo leaving coll)) = Some e' \<and>
              Hours_Present e' = Some (py_round2 (time_diff arrival leaving))"
    by simp
qed

theorem elapsed_hours_rounded_witness:
  "valid_time \<lparr>hour = 9, minute = 0\<rparr> \<and> valid_time \<lparr>hour = 17, minute = 30\<rparr> \<and>
   time_diff \<lparr>hour = 9, minute = 0\<rparr> \<lparr>hour = 17, minute = 30\<rparr> = 17 / 2 \<and>
   0 \<le> py_round2 (time_diff \<lparr>hour = 9, minute = 0\<rparr> \<lparr>hour = 17, minute = 30\<rparr>) \<and>
   py_round2 (time_diff \<lparr>hour = 9, minute = 0\<rparr> \<lparr>hour = 9, minute = 0\<rparr>) = 0 \<and>
   strptime (strftime \<lparr>hour = 9, minute = 0\<rparr>) = Some \<lparr>hour = 9, minute = 0\<rparr> \<and>
   find_one ''E1'' 0 [arrived0] = Some arrived0 \<and> Leaving_Time arrived0 = None \<and>
   Arrival_Time arrived0 = Some ''09:00 AM'' \<and>
   strptime ''09:00 AM'' = Some \<lparr>hour = 9, minute = 0\<rparr> \<and> distinct (map oid [arrived0]) \<and>
   (\<exists>e'. find_one ''E1'' 0
           (snd (log_leaving ''E1'' 0 photo0 \<lparr>hour = 17, minute = 30\<rparr> [arrived0])) = Some e' \<and>
         Hours_Present e' =
           Some (py_round2 (time_diff \<lparr>hour = 9, minute = 0\<rparr> \<lparr>hour = 17, minute = 30\<rparr>)))"
proof -
  have v: "valid_time \<lparr>hour = 9, minute = 0\<rparr>" "valid_time \<lparr>hour = 17, minute = 30\<rparr>"
    by (simp_all add: valid_time_def)
  have m: "minute_of_day \<lparr>hour = 9, minute = 0\<rparr> = 540"
    "minute_of_day \<lparr>hour = 17, minute = 30\<rparr> = 1050"
    by (simp_all add: minute_of_day_def)
  have r: "find_one ''E1'' 0 [arrived0] = Some arrived0 \<and> Leaving_Time arrived0 = None \<and>
    Arrival_Time arrived0 = Some ''09:00 AM'' \<and>
    strptime ''09:00 AM'' = Some \<lparr>hour = 9, minute = 0\<rparr> \<and> distinct (map oid [arrived0])"
    by (simp add: find_one_arrived0 strptime_9) (simp add: arrived0_def)
  note w1 = elapsed_hours_rounded [OF v]
  note w2 = elapsed_hours_rounded [OF v(1) v(1)]
  from w1 have "time_diff \<lparr>hour = 9, minute = 0\<rparr> \<lparr>hour = 17, minute = 30\<rparr> = 17 / 2"
    unfolding m by simp
  moreover from w1 have "0 \<le> py_round2 (time_diff \<lparr>hour = 9, minute = 0\<rparr> \<lparr>hour = 17, minute = 30\<rparr>)"
    by blast
  moreover from w2 have "py_round2 (time_diff \<lparr>hour = 9, minute = 0\<rparr> \<lparr>hour = 9, minute = 0\<rparr>) = 0"
    by blast
  moreover from w1 have "strptime (strftime \<lparr>hour = 9, minute = 0\<rparr>) = Some \<lparr>hour = 9, minute = 0\<rparr>"
    by blast
  moreover from w1 r have "\<exists>e'. find_one ''E1'' 0
           (snd (log_leaving ''E1'' 0 photo0 \<lparr>hour = 17, minute = 30\<rparr> [arrived0])) = Some e' \<and>
         Hours_Present e' =
           Some (py_round2 (time_diff \<lparr>hour = 9, minute = 0\<rparr> \<lparr>hour = 17, minute = 30\<rparr>))"
    by blast
  ultimately show ?thesis using v r by blast
qed

subsection \<open>Hours and leaving time under the administrative edit\<close>

text \<open>
  Claim C4, evaluated. An arrival logged at 17:00 and then edited to arrival 05:00 PM and
  leaving 09:00 AM leaves the record with \<open>-8\<close> hours: the edit takes the plain
  difference. \<open>log_leaving\<close> at 09:00 on the same arrival adds the day and stores 16.
\<close>

theorem admin_update_negative_hours:
  "map Hours_Present
     (snd (run [LogArrival ''E1'' ''Ann'' 0 \<lparr>img_format = ''JPEG'', img_size = (640, 480)\<rparr>
                  \<lparr>hour = 17, minute = 0\<rparr>,
                AdminUpdate ''E1'' 0 (Some ''05:00 PM'') (Some ''09:00 AM'')] [])) =
     [Some (- 8)] \<and>
   map Hours_Present
     (snd (run [LogArrival ''E1'' ''Ann'' 0 \<lparr>img_format = ''JPEG'', img_size = (640, 480)\<rparr>
                  \<lparr>hour = 17, minute = 0\<rparr>,
                LogLeaving ''E1'' 0 \<lparr>img_format = ''JPEG'', img_size = (640, 480)\<rparr>
                  \<lparr>hour = 9, minute = 0\<rparr>] [])) =
     [Some 16]"
  unfolding run_edited_backwards [unfolded edited_backwards_ops_def photo0_def]
    run_logged_backwards [unfolded logged_backwards_ops_def photo0_def]
  by simp




subsection \<open>One record per employee and date\<close>

text \<open>
  Claim C7 fails as stated: the repository's insert refuses nothing. Inserting a record
  whose employee and date are already in the collection gives two records of that key.
\<close>

theorem insert_one_duplicate_counterexample:
  "map (\<lambda>e. (oid e, Employee_ID e, Date e))
     (insert_one
        \<lparr>oid = 0, Employee_ID = ''E1'', Name = ''Ann'', Date = 0,
         Arrival_Time = Some ''10:00 AM'', Leaving_Time = None, Hours_Present = None,
         Arrival_Photo = None, Leaving_Photo = None\<rparr>
        [\<lparr>oid = 0, Employee_ID = ''E1'', Name = ''Ann'', Date = 0,
          Arrival_Time = Some ''09:00 AM'', Leaving_Time = None, Hours_Present = None,
          Arrival_Photo = None, Leaving_Photo = None\<rparr>]) =
     [(0, ''E1'', 0), (1, ''E1'', 0)]"
  by (simp add: insert_one_def fresh_oid_def)

text \<open>
  Claim C7, amended. After any sequence of arrivals, leavings and edits run one after
  another from the empty collection, no two records have the same employee and date;
  the lookup in \<open>log_arrival\<close> is what keeps it so, since \<open>insert_one\<close> appends whatever
  the keys are.
\<close>

theorem one_record_per_key:
  "distinct (map key (snd (run ops []))) \<and>
   map key (insert_one e coll) = map key coll @ [key e]"
  using distinct_key_run [of "[]" ops] by (simp add: map_key_insert_one)

theorem one_record_per_key_witness:
  "distinct (map key (snd (run day0_ops []))) \<and> map key (snd (run day0_ops [])) = [(''E1'', 0)]"
  using one_record_per_key [of day0_ops arrived0 "[]"]
  by (simp add: run_day0 key_def left0_def arrived0_def)

subsection \<open>Stored photos\<close>




subsection \<open>The location restriction setting\<close>

text \<open>
  Claim C9. \<open>get_location_restriction\<close> returns the stored value when the setting exists
  and leaves the store as it is; when the setting is absent it inserts the value true
  and returns true, and the next read returns true from the store.
  \<open>set_location_restriction\<close> inserts the setting when it is absent and changes it in
  place when it exists, and every later read, however many, returns the value set.
\<close>

theorem location_restriction_get_set:
  "(\<forall>s. find_setting ''location_restriction'' coll = Some s \<longrightarrow>
      get_location_restriction coll = (setting_value s, coll)) \<and>
   (find_setting ''location_restriction'' coll = None \<longrightarrow>
      get_location_restriction coll =
        (True, coll @ [\<lparr>setting = ''location_restriction'', setting_value = True\<rparr>]) \<and>
      get_location_restriction (snd (get_location_restriction coll)) =
        (True, snd (get_location_restriction coll))) \<and>
   (find_setting ''location_restriction'' coll = None \<longrightarrow>
      set_location_restriction v coll =
        coll @ [\<lparr>setting = ''location_restriction'', setting_value = v\<rparr>]) \<and>
   (find_setting ''location_restriction'' coll \<noteq> None \<longrightarrow>
      map setting (set_location_restriction v coll) = map setting coll) \<and>
   get_location_restriction (set_location_restriction v coll) =
     (v, set_location_restriction v coll) \<and>
   get_location_restriction
     (((\<lambda>c. snd (get_location_restriction c)) ^^ n) (set_location_restriction v coll)) =
     (v, set_location_restriction v coll)"
proof (intro conjI allI impI)
  fix s
  assume "find_setting ''location_restriction'' coll = Some s"
  then show "get_location_restriction coll = (setting_value s, coll)"
    by (rule get_location_restriction_found)
next
  assume a: "find_setting ''location_restriction'' coll = None"
  show "get_location_restriction coll =
        (True, coll @ [\<lparr>setting = ''location_restriction'', setting_value = True\<rparr>])"
    by (rule get_location_restriction_absent [OF a])
  show "get_location_restriction (snd (get_location_restriction coll)) =
        (True, snd (get_location_restriction coll))"
    unfolding get_twice by (simp add: get_location_restriction_absent [OF a])
  show "set_location_restriction v coll =
        coll @ [\<lparr>setting = ''location_restriction'', setting_value = v\<rparr>]"
    using a by (simp add: set_location_restriction_def)
next
  assume "find_setting ''location_restriction'' coll \<noteq> None"
  then show "map setting (set_location_restriction v coll) = map setting coll"
    by (auto simp: set_location_restriction_def map_update_first)
next
  show "get_location_restriction (set_location_restriction v coll) =
     (v, set_location_restriction v coll)"
    by (rule get_after_set)
  show "get_location_restriction
     (((\<lambda>c. snd (get_location_restriction c)) ^^ n) (set_location_restriction v coll)) =
     (v, set_location_restriction v coll)"
    unfolding gets_after_set by (rule get_after_set)
qed

theorem location_restriction_get_set_witness:
  "find_setting ''location_restriction'' [] = None \<and>
   get_location_restriction [] =
     (True, [] @ [\<lparr>setting = ''location_restriction'', setting_value = True\<rparr>]) \<and>
   get_location_restriction (snd (get_location_restriction [])) =
     (True, snd (get_location_restriction [])) \<and>
   set_location_restriction False [] =
     [] @ [\<lparr>setting = ''location_restriction'', setting_value = False\<rparr>] \<and>
   find_setting ''location_restriction'' restriction_off =
     Some \<lparr>setting = ''location_restriction'', setting_value = False\<rparr> \<and>
   get_location_restriction restriction_off = (False, restriction_off) \<and>
   map setting (set_location_restriction True restriction_off) = map setting restriction_off \<and>
   get_location_restriction (set_location_restriction True restriction_off) =
     (True, set_location_restriction True restriction_off)"
proof -
  note w1 = location_restriction_get_set [where coll = "[]" and v = False]
  note w2 = location_restriction_get_set [where coll = restriction_off and v = True]
  note f = find_setting_concrete
  from w1 f have c1: "get_location_restriction [] =
       (True, [] @ [\<lparr>setting = ''location_restriction'', setting_value = True\<rparr>]) \<and>
     get_location_restriction (snd (get_location_restriction [])) =
       (True, snd (get_location_restriction [])) \<and>
     set_location_restriction False [] =
       [] @ [\<lparr>setting = ''location_restriction'', setting_value = False\<rparr>]"
    by blast
  from w2 f have "get_location_restriction restriction_off =
      (setting_value \<lparr>setting = ''location_restriction'', setting_value = False\<rparr>, restriction_off)"
    by blast
  then have c2: "get_location_restriction restriction_off = (False, restriction_off)" by simp
  from f have "find_setting ''location_restriction'' restriction_off \<noteq> None" by simp
  with w2 have c3: "map setting (set_location_restriction True restriction_off) =
      map setting restriction_off \<and>
    get_location_restriction (set_location_restriction True restriction_off) =
      (True, set_location_restriction True restriction_off)"
    by blast
  from c1 c2 c3 f show ?thesis by blast
qed

end
